theory Spec2Isabelle
  imports Main "HOL-Library.Sublist"
begin

section \<open>JavaScript strings\<close>

text \<open>
  The Workline search app is JavaScript. Its strings are modelled as HOL strings, each
  character read as the code point of the same number (U+0000 to U+00FF), so \<open>length\<close>
  is the \<open>.length\<close> of such a string. The string methods the app calls are written out
  below as ECMAScript defines them on these code points.
\<close>

definition isWhiteSpace :: "char \<Rightarrow> bool" where
  \<comment> \<open>White space and line terminators of ECMAScript below U+0100: what \<open>trim\<close> strips
      and what \<open>\s\<close> matches.\<close>
  "isWhiteSpace c = (of_char c \<in> {9, 10, 11, 12, 13, 32, 160 :: nat})"

definition toLowerCase_char :: "char \<Rightarrow> char" where
  \<comment> \<open>A-Z, and the capital letters U+00C0 to U+00DE but for the multiplication sign.\<close>
  "toLowerCase_char c =
     (let n = (of_char c :: nat)
      in if (65 \<le> n \<and> n \<le> 90) \<or> (192 \<le> n \<and> n \<le> 222 \<and> n \<noteq> 215)
         then char_of (n + 32) else c)"

definition toLowerCase :: "string \<Rightarrow> string" where
  "toLowerCase s = map toLowerCase_char s"

definition trim :: "string \<Rightarrow> string" where
  "trim s = rev (dropWhile isWhiteSpace (rev (dropWhile isWhiteSpace s)))"

definition substring0 :: "nat \<Rightarrow> string \<Rightarrow> string" where
  \<comment> \<open>\<open>s.substring(0, n)\<close>\<close>
  "substring0 n s = take n s"

fun str_includes :: "string \<Rightarrow> string \<Rightarrow> bool" where
  \<comment> \<open>\<open>s.includes(t)\<close>: \<open>t\<close> occurs in \<open>s\<close> at some position.\<close>
  "str_includes [] t = (t = [])"
| "str_includes (c # cs) t = (prefix t (c # cs) \<or> str_includes cs t)"

definition startsWith :: "string \<Rightarrow> string \<Rightarrow> bool" where
  "startsWith s t = prefix t s"

fun replace_first :: "string \<Rightarrow> string \<Rightarrow> string \<Rightarrow> string" where
  \<comment> \<open>\<open>s.replace(pat, rep)\<close> with a string pattern: the first occurrence only.\<close>
  "replace_first pat rep [] = (if pat = [] then rep else [])"
| "replace_first pat rep (c # cs) =
     (if prefix pat (c # cs) then rep @ drop (length pat) (c # cs)
      else c # replace_first pat rep cs)"

function collapse_whitespace :: "string \<Rightarrow> string" where
  \<comment> \<open>\<open>s.replace(/\s+/g, ' ')\<close>: every maximal run of white space becomes one space.\<close>
  "collapse_whitespace [] = []"
| "collapse_whitespace (c # cs) =
     (if isWhiteSpace c then CHR '' '' # collapse_whitespace (dropWhile isWhiteSpace cs)
      else c # collapse_whitespace cs)"
  by pat_completeness auto
termination
  by (relation "measure length") (auto simp: le_imp_less_Suc length_dropWhile_le)

fun split_on :: "char \<Rightarrow> string \<Rightarrow> string list" where
  \<comment> \<open>\<open>s.split(d)\<close> for a one-character separator; the empty string gives one empty
      piece, adjacent separators give empty pieces.\<close>
  "split_on d [] = [[]]"
| "split_on d (c # cs) =
     (if c = d then [] # split_on d cs
      else (case split_on d cs of [] \<Rightarrow> [[c]] | w # ws \<Rightarrow> (c # w) # ws))"

section \<open>The regular expressions of the runtime\<close>

text \<open>
  The scorer builds \<open>new RegExp(term, 'g')\<close> from each query term and counts the matches
  of \<open>searchableText.match(...)\<close>. The regular-expression engine belongs to the JavaScript
  runtime, not to the app. It is modelled here for two kinds of pattern:
  \<^item> patterns without quantifier, group, class, alternation or escape: sequences of
    literal characters, \<open>.\<close>, \<open>^\<close> and \<open>$\<close>, matched as ECMAScript does without the
    \<open>m\<close>, \<open>s\<close>, \<open>i\<close> and \<open>u\<close> flags;
  \<^item> patterns that open a group with \<open>(\<close> and hold no \<open>)\<close>, no \<open>[\<close> and no backslash: the
    constructor throws a SyntaxError (an unterminated group, or an earlier syntax
    error).
  What the runtime does with any other pattern is a parameter (\<open>rx\<close> below).
\<close>

datatype regex_error = SyntaxError

datatype atom = Lit char | AnyChar | InputStart | InputEnd

definition backslash :: char where
  "backslash = CHR 0x5C"

definition operator_chars :: "char list" where
  \<comment> \<open>The syntax characters that build quantifiers, groups, classes, alternations and
      escapes.\<close>
  "operator_chars = backslash # ''*+?()[]{}|''"

definition syntax_chars :: "char list" where
  \<comment> \<open>SyntaxCharacter of ECMAScript: every other character of a pattern stands for
      itself.\<close>
  "syntax_chars = ''^$.'' @ operator_chars"

definition isLineTerminator :: "char \<Rightarrow> bool" where
  "isLineTerminator c = (of_char c \<in> {10, 13 :: nat})"

definition atom_of :: "char \<Rightarrow> atom" where
  "atom_of c =
     (if c = CHR ''.'' then AnyChar
      else if c = CHR ''^'' then InputStart
      else if c = CHR ''$'' then InputEnd
      else Lit c)"

fun match_here :: "atom list \<Rightarrow> bool \<Rightarrow> string \<Rightarrow> nat option" where
  \<comment> \<open>Matching the atoms at one position: \<open>at_start\<close> says whether the position is
      index 0, the string is the input from the position on; the result is the number
      of characters matched.\<close>
  "match_here [] at_start s = Some 0"
| "match_here (Lit c # as) at_start [] = None"
| "match_here (Lit c # as) at_start (x # xs) =
     (if x = c then map_option Suc (match_here as False xs) else None)"
| "match_here (AnyChar # as) at_start [] = None"
| "match_here (AnyChar # as) at_start (x # xs) =
     (if isLineTerminator x then None else map_option Suc (match_here as False xs))"
| "match_here (InputStart # as) at_start s =
     (if at_start then match_here as at_start s else None)"
| "match_here (InputEnd # as) at_start s =
     (if s = [] then match_here as at_start s else None)"

fun count_matches :: "atom list \<Rightarrow> bool \<Rightarrow> string \<Rightarrow> nat" where
  \<comment> \<open>The length of \<open>s.match(re)\<close> for a global \<open>re\<close>: the leftmost match from
      \<open>lastIndex\<close> on is taken, and the search goes on from its end (one further after
      an empty match), up to and including the end of the input.\<close>
  "count_matches as at_start [] = (if match_here as at_start [] = None then 0 else 1)"
| "count_matches as at_start (x # xs) =
     (case match_here as at_start (x # xs) of
        None \<Rightarrow> count_matches as False xs
      | Some n \<Rightarrow> Suc (count_matches as False (drop (n - 1) xs)))"

definition unterminated_group :: "string \<Rightarrow> bool" where
  "unterminated_group p =
     (CHR ''('' \<in> set p \<and> CHR '')'' \<notin> set p \<and> CHR ''['' \<notin> set p \<and> backslash \<notin> set p)"

type_synonym regex_runtime = "string \<Rightarrow> string \<Rightarrow> regex_error + nat"

definition RegExp_match_count :: "regex_runtime \<Rightarrow> string \<Rightarrow> string \<Rightarrow> regex_error + nat" where
  \<comment> \<open>\<open>(s.match(new RegExp(p, 'g')) || []).length\<close>, or the exception of the
      constructor.\<close>
  "RegExp_match_count rx p s =
     (if list_all (\<lambda>c. c \<notin> set operator_chars) p
      then Inr (count_matches (map atom_of p) True s)
      else if unterminated_group p then Inl SyntaxError
      else rx p s)"

section \<open>Documents, articles and the outside world\<close>

text \<open>
  The app reads pages through \<open>axios.get\<close> and \<open>cheerio.load\<close>. A loaded page is
  modelled by what \<open>$(selector)\<close> answers: the list of the matched elements, each with
  its text and its attributes.
\<close>

record element =
  el_text :: string
  el_attr :: "string \<Rightarrow> string option"

type_synonym document = "string \<Rightarrow> element list"

definition first :: "element list \<Rightarrow> element list" where
  \<comment> \<open>\<open>.first()\<close>\<close>
  "first els = take 1 els"

definition sel_text :: "element list \<Rightarrow> string" where
  \<comment> \<open>\<open>.text()\<close>: the texts of the matched elements, one after the other.\<close>
  "sel_text els = concat (map el_text els)"

definition sel_attr :: "string \<Rightarrow> element list \<Rightarrow> string option" where
  \<comment> \<open>\<open>.attr(name)\<close>: the attribute of the first matched element, if any.\<close>
  "sel_attr name els = (case els of [] \<Rightarrow> None | e # _ \<Rightarrow> el_attr e name)"

definition dq :: char where
  \<comment> \<open>The double quote of the attribute selectors.\<close>
  "dq = CHR 0x22"

definition or_string :: "string \<Rightarrow> string \<Rightarrow> string" where
  \<comment> \<open>\<open>a || b\<close> on strings: the empty string is falsy.\<close>
  "or_string a b = (if a = [] then b else a)"

definition or_attr :: "string option \<Rightarrow> string \<Rightarrow> string" where
  \<comment> \<open>\<open>a || b\<close> where \<open>a\<close> may be \<open>undefined\<close>.\<close>
  "or_attr a b = (case a of None \<Rightarrow> b | Some v \<Rightarrow> or_string v b)"

record article =
  url :: string
  title :: string
  summary :: string
  content :: string
  topics :: "string list"
  publishDate :: "string option"
  scrapedAt :: "string option"

datatype http_error = RequestFailed

record google_item =
  link :: string
  item_title :: string
  snippet :: string

record env =
  http_get :: "string \<Rightarrow> http_error + document"
    \<comment> \<open>\<open>cheerio.load((await axios.get(url, ...)).data)\<close>, or the exception of either\<close>
  google_configured :: bool
    \<comment> \<open>\<open>GOOGLE_API_KEY && GOOGLE_CSE_ID\<close>\<close>
  google_get :: "string \<Rightarrow> http_error + google_item list option"
    \<comment> \<open>the custom search request for a query: an exception, or \<open>response.data.items\<close>\<close>
  date_now :: int
    \<comment> \<open>\<open>Date.now()\<close>; one reading stands for all the readings of one call\<close>
  date_iso :: string
    \<comment> \<open>\<open>new Date().toISOString()\<close>\<close>
  finish_time :: "string \<Rightarrow> nat"
    \<comment> \<open>when, within one call, the request for a URL completes\<close>
  regex_runtime :: regex_runtime

section \<open>scrapeArticle\<close>

definition sentinel_title :: string where
  "sentinel_title = ''Article''"

definition placeholder :: "string \<Rightarrow> article" where
  \<comment> \<open>The record of the \<open>catch\<close> branch.\<close>
  "placeholder u =
     \<lparr>url = u, title = sentinel_title, summary = ''Could not load summary'', content = [],
      topics = [], publishDate = None, scrapedAt = None\<rparr>"

definition extract_title :: "document \<Rightarrow> string" where
  "extract_title doc =
     or_string (trim (sel_text (first (doc ''h1''))))
       (or_string
          (trim (replace_first '' | The Workline'' []
                   (replace_first '' | FlexOS'' [] (sel_text (doc ''title'')))))
          (trim (sel_text (first (doc (''[class*='' @ [dq] @ ''title'' @ [dq] @ '']''))))))"

definition summary_selectors :: "string list" where
  "summary_selectors =
     [''article p:first-of-type'', ''.content p:first-of-type'',
      ''.post-content p:first-of-type'', ''.entry-content p:first-of-type'',
      ''main p:first-of-type'', ''p'']"

fun first_paragraph :: "document \<Rightarrow> string list \<Rightarrow> string \<Rightarrow> string" where
  \<comment> \<open>The loop over \<open>contentSelectors\<close> that replaces a short summary; without a long
      enough paragraph the summary stays.\<close>
  "first_paragraph doc [] summary0 = summary0"
| "first_paragraph doc (selector # rest) summary0 =
     (let firstPara = trim (sel_text (first (doc selector)))
      in if firstPara \<noteq> [] \<and> length firstPara > 30 then substring0 250 firstPara
         else first_paragraph doc rest summary0)"

definition extract_summary :: "document \<Rightarrow> string" where
  "extract_summary doc =
     (let summary0 =
            or_attr (sel_attr ''content'' (doc (''meta[name='' @ [dq] @ ''description'' @ [dq] @ '']'')))
              (or_attr (sel_attr ''content'' (doc (''meta[property='' @ [dq] @ ''og:description'' @ [dq] @ '']'')))
                 (trim (sel_text (first (doc ''.excerpt, .summary, .intro'')))))
      in if summary0 = [] \<or> length summary0 < 50
         then first_paragraph doc summary_selectors summary0 else summary0)"

definition content_selectors :: "string list" where
  "content_selectors =
     [''article'', ''.content, .post-content, .entry-content'', ''main'', ''.post, .article'']"

fun first_container :: "document \<Rightarrow> string list \<Rightarrow> string" where
  "first_container doc [] = []"
| "first_container doc (selector # rest) =
     (let matched = doc selector
      in if length matched > 0 then trim (sel_text matched) else first_container doc rest)"

definition extract_content :: "document \<Rightarrow> string" where
  "extract_content doc =
     (let content0 = first_container doc content_selectors;
          content1 = (if content0 = [] \<or> length content0 < 100
                      then trim (sel_text (doc ''body'')) else content0)
      in substring0 3000 (collapse_whitespace content1))"

definition push_topic :: "string list \<Rightarrow> element \<Rightarrow> string list" where
  "push_topic acc el =
     (let tag = replace_first ''#'' [] (toLowerCase (trim (el_text el)))
      in if tag \<noteq> [] \<and> length tag > 2 \<and> tag \<notin> set acc then acc @ [tag] else acc)"

definition extract_topics :: "document \<Rightarrow> string list" where
  "extract_topics doc =
     foldl push_topic [] (doc (''[class*='' @ [dq] @ ''tag'' @ [dq] @ ''], [class*='' @ [dq] @ ''category'' @ [dq] @ ''], [rel='' @ [dq] @ ''tag'' @ [dq] @ ''], .hashtag''))"

definition extract_publishDate :: "document \<Rightarrow> string" where
  "extract_publishDate doc =
     or_attr (sel_attr ''datetime'' (doc ''time[datetime]''))
       (or_attr (sel_attr ''content'' (doc (''meta[property='' @ [dq] @ ''article:published_time'' @ [dq] @ '']'')))
          (trim (sel_text (first (doc ''.date, .published, .post-date'')))))"

definition scrapeArticle :: "env \<Rightarrow> string \<Rightarrow> article" where
  "scrapeArticle e u =
     (case http_get e u of
        Inl _ \<Rightarrow> placeholder u
      | Inr doc \<Rightarrow>
          (let t = extract_title doc; s = extract_summary doc
           in \<lparr>url = u,
               title = substring0 150 t,
               summary = (if s \<noteq> [] then substring0 300 s @ (if length s > 300 then ''...'' else [])
                          else []),
               content = extract_content doc,
               topics = take 5 (extract_topics doc),
               publishDate = Some (extract_publishDate doc),
               scrapedAt = Some (date_iso e)\<rparr>))"

section \<open>The article cache and its refresh\<close>

text \<open>
  \<open>articleCache\<close> is a JavaScript \<open>Map\<close>: it is iterated in the order in which its keys
  were first set, and setting a key that is present keeps the key's place. It is
  modelled as an association list with exactly this \<open>set\<close>.
\<close>

type_synonym cache = "(string \<times> article) list"

fun cache_set :: "string \<Rightarrow> article \<Rightarrow> cache \<Rightarrow> cache" where
  "cache_set k v [] = [(k, v)]"
| "cache_set k v ((k', v') # rest) =
     (if k' = k then (k, v) # rest else (k', v') # cache_set k v rest)"

definition cache_get :: "cache \<Rightarrow> string \<Rightarrow> article option" where
  "cache_get c k = map_of c k"

record state =
  articleCache :: cache
  lastCacheTime :: "int option"

definition initial_state :: state where
  "initial_state = \<lparr>articleCache = [], lastCacheTime = None\<rparr>"

definition CACHE_DURATION :: int where
  "CACHE_DURATION = 30 * 60 * 1000"

definition index_url :: string where
  "index_url = ''https://www.flexos.work/the-workline/''"

definition link_selectors :: "string list" where
  "link_selectors =
     [''a[href*='' @ [dq] @ ''/the-workline/'' @ [dq] @ '']'',
      ''a[href*='' @ [dq] @ ''workline'' @ [dq] @ '']'',
      ''.post-link, .article-link'', ''article a, .post a'', ''h1 a, h2 a, h3 a'']"

definition add_link :: "string list \<Rightarrow> element \<Rightarrow> string list" where
  \<comment> \<open>The body of the \<open>each\<close> callback; \<open>articleUrls\<close> is a \<open>Set\<close>, kept here in
      insertion order for \<open>Array.from\<close>.\<close>
  "add_link urls el =
     (case el_attr el ''href'' of
        None \<Rightarrow> urls
      | Some href0 \<Rightarrow>
          if href0 = [] then urls
          else (let href = (if startsWith href0 ''/'' then ''https://www.flexos.work'' @ href0
                            else href0)
                in if str_includes href ''workline'' \<and> href \<noteq> index_url \<and>
                      \<not> str_includes href ''#'' \<and> \<not> str_includes href ''mailto:''
                   then (if href \<in> set urls then urls else urls @ [href])
                   else urls))"

definition discover :: "document \<Rightarrow> string list" where
  "discover doc = foldl (\<lambda>urls selector. foldl add_link urls (doc selector)) [] link_selectors"

definition store_article :: "cache \<Rightarrow> article \<Rightarrow> cache" where
  \<comment> \<open>\<open>if (article && article.title !== 'Article') articleCache.set(article.url, article)\<close>\<close>
  "store_article c a = (if title a \<noteq> sentinel_title then cache_set (url a) a c else c)"

function refresh_batches :: "env \<Rightarrow> string list \<Rightarrow> nat \<Rightarrow> cache \<Rightarrow> cache" where
  \<comment> \<open>The \<open>for\<close> loop over the batches of two; the scrapes of a batch are awaited
      together and stored in the order of the batch.\<close>
  "refresh_batches e urls i c =
     (if i < min (length urls) 20
      then (let batch = take 2 (drop i urls);
                results = map (scrapeArticle e) batch
            in refresh_batches e urls (i + 2) (foldl store_article c results))
      else c)"
  by pat_completeness auto
termination
  by (relation "measure (\<lambda>(e, urls, i, c). 20 - i)") auto

definition refreshArticleCache :: "env \<Rightarrow> state \<Rightarrow> state" where
  \<comment> \<open>The whole body is in a \<open>try\<close> whose \<open>catch\<close> only logs.\<close>
  "refreshArticleCache e s =
     (case http_get e index_url of
        Inl _ \<Rightarrow> s
      | Inr doc \<Rightarrow>
          \<lparr>articleCache = refresh_batches e (discover doc) 0 (articleCache s),
           lastCacheTime = Some (date_now e)\<rparr>)"

definition stale :: "env \<Rightarrow> state \<Rightarrow> bool" where
  \<comment> \<open>\<open>!lastCacheTime || Date.now() - lastCacheTime > CACHE_DURATION\<close>; the number 0 is
      falsy as \<open>null\<close> is.\<close>
  "stale e s =
     (case lastCacheTime s of
        None \<Rightarrow> True
      | Some t \<Rightarrow> t = 0 \<or> date_now e - t > CACHE_DURATION)"

section \<open>Scoring\<close>

datatype source = Google | Cache

record search_result =
  res_url :: string
  res_title :: string
  res_summary :: string
  res_content :: "string option"
  res_topics :: "string list"
  res_publishDate :: "string option"
  res_scrapedAt :: "string option"
  res_score :: nat
  res_source :: "source option"

definition queryTerms :: "string \<Rightarrow> string list" where
  "queryTerms query = filter (\<lambda>t. length t > 2) (split_on CHR '' '' (toLowerCase query))"

definition searchableText :: "article \<Rightarrow> string" where
  "searchableText a = toLowerCase (title a @ '' '' @ summary a @ '' '' @ content a)"

definition score_term :: "regex_runtime \<Rightarrow> article \<Rightarrow> nat \<Rightarrow> string \<Rightarrow> regex_error + nat" where
  \<comment> \<open>One call of the \<open>forEach\<close> callback: the score after the term, or the exception
      of \<open>new RegExp\<close>.\<close>
  "score_term rx a score t =
     (let s1 = (if str_includes (toLowerCase (title a)) t then score + 5 else score);
          s2 = (if str_includes (toLowerCase (summary a)) t then s1 + 3 else s1);
          s3 = (if list_ex (\<lambda>topic. str_includes topic t) (topics a) then s2 + 2 else s2)
      in case RegExp_match_count rx t (searchableText a) of
           Inl err \<Rightarrow> Inl err
         | Inr contentMatches \<Rightarrow> Inr (s3 + min contentMatches 3))"

fun score_terms :: "regex_runtime \<Rightarrow> article \<Rightarrow> string list \<Rightarrow> nat \<Rightarrow> regex_error + nat" where
  "score_terms rx a [] score = Inr score"
| "score_terms rx a (t # ts) score =
     (case score_term rx a score t of
        Inl err \<Rightarrow> Inl err
      | Inr score' \<Rightarrow> score_terms rx a ts score')"

definition article_score :: "regex_runtime \<Rightarrow> string \<Rightarrow> article \<Rightarrow> regex_error + nat" where
  "article_score rx query a = score_terms rx a (queryTerms query) 0"

definition cache_result :: "source option \<Rightarrow> article \<Rightarrow> nat \<Rightarrow> search_result" where
  \<comment> \<open>\<open>{ ...article, score }\<close>, with \<open>source: 'cache'\<close> in the Google variant.\<close>
  "cache_result src a score =
     \<lparr>res_url = url a, res_title = title a, res_summary = summary a,
      res_content = Some (content a), res_topics = topics a,
      res_publishDate = publishDate a, res_scrapedAt = scrapedAt a,
      res_score = score, res_source = src\<rparr>"

fun score_entries ::
  "regex_runtime \<Rightarrow> string \<Rightarrow> source option \<Rightarrow> cache \<Rightarrow> regex_error + search_result list" where
  \<comment> \<open>The loop over \<open>articleCache.entries()\<close>.\<close>
  "score_entries rx query src [] = Inr []"
| "score_entries rx query src ((k, a) # rest) =
     (case article_score rx query a of
        Inl err \<Rightarrow> Inl err
      | Inr score \<Rightarrow>
          (case score_entries rx query src rest of
             Inl err \<Rightarrow> Inl err
           | Inr results \<Rightarrow>
               Inr (if score > 0 then cache_result src a score # results else results)))"

definition sort_by_score :: "search_result list \<Rightarrow> search_result list" where
  \<comment> \<open>\<open>.sort((a, b) => b.score - a.score)\<close>: descending, stable.\<close>
  "sort_by_score rs = sort_key (\<lambda>r. - int (res_score r)) rs"

section \<open>Search, cache only\<close>

definition searchWorklineArticles_cacheOnly ::
  "env \<Rightarrow> string \<Rightarrow> state \<Rightarrow> (regex_error + search_result list) \<times> state" where
  \<comment> \<open>\<open>searchWorklineArticles\<close> of the app without Google search.\<close>
  "searchWorklineArticles_cacheOnly e query s =
     (let s1 = (if stale e s then refreshArticleCache e s else s);
          s2 = (if length (articleCache s1) = 0 then refreshArticleCache e s1 else s1)
      in case score_entries (regex_runtime e) query None (articleCache s2) of
           Inl err \<Rightarrow> (Inl err, s2)
         | Inr results \<Rightarrow> (Inr (take 5 (sort_by_score results)), s2))"

section \<open>Search, Google and cache\<close>

definition google_result :: "google_item \<Rightarrow> article \<Rightarrow> search_result" where
  "google_result item a =
     \<lparr>res_url = link item,
      res_title = or_string (title a) (item_title item),
      res_summary = or_string (summary a) (snippet item),
      res_content = None, res_topics = topics a,
      res_publishDate = publishDate a, res_scrapedAt = None,
      res_score = 10, res_source = Some Google\<rparr>"

definition item_article :: "env \<Rightarrow> cache \<Rightarrow> google_item \<Rightarrow> article" where
  \<comment> \<open>\<open>articleData\<close>: the cached record, or a fresh scrape.\<close>
  "item_article e c item =
     (case cache_get c (link item) of
        Some a \<Rightarrow> a
      | None \<Rightarrow> scrapeArticle e (link item))"

definition store_item :: "env \<Rightarrow> cache \<Rightarrow> cache \<Rightarrow> google_item \<Rightarrow> cache" where
  \<comment> \<open>The \<open>articleCache.set\<close> of an item that was not cached when the callbacks
      started: \<open>c0\<close> is the cache then, \<open>c\<close> the cache now.\<close>
  "store_item e c0 c item =
     (case cache_get c0 (link item) of
        Some a \<Rightarrow> c
      | None \<Rightarrow>
          (let a = scrapeArticle e (link item)
           in if title a \<noteq> sentinel_title then cache_set (link item) a c else c))"

definition completion_order :: "env \<Rightarrow> google_item list \<Rightarrow> google_item list" where
  \<comment> \<open>The order in which the scrapes of one \<open>Promise.all\<close> complete: by the
      completion time of their requests, simultaneous ones in the order of the items.
      Requests for the same URL are answered alike and a repeated \<open>set\<close> of a key
      keeps the key's place, so only the first completion for a URL decides the order
      of the cache.\<close>
  "completion_order e items = sort_key (\<lambda>item. finish_time e (link item)) items"

definition searchWithGoogle :: "env \<Rightarrow> string \<Rightarrow> state \<Rightarrow> search_result list \<times> state" where
  \<comment> \<open>The five callbacks of \<open>Promise.all\<close> all look the cache up before any scrape is
      awaited, so every lookup sees the cache of the call's start; each scrape is
      stored when its own request has completed. The results keep the order of the
      items.\<close>
  "searchWithGoogle e query s =
     (if \<not> google_configured e then ([], s)
      else (case google_get e query of
              Inl _ \<Rightarrow> ([], s)
            | Inr None \<Rightarrow> ([], s)
            | Inr (Some items) \<Rightarrow>
                (let c0 = articleCache s; items5 = take 5 items
                 in (map (\<lambda>item. google_result item (item_article e c0 item)) items5,
                     s\<lparr>articleCache :=
                         foldl (store_item e c0) c0 (completion_order e items5)\<rparr>))))"

definition searchCachedArticles ::
  "env \<Rightarrow> string \<Rightarrow> state \<Rightarrow> (regex_error + search_result list) \<times> state" where
  "searchCachedArticles e query s =
     (let s1 = (if stale e s then refreshArticleCache e s else s)
      in case score_entries (regex_runtime e) query (Some Cache) (articleCache s1) of
           Inl err \<Rightarrow> (Inl err, s1)
         | Inr results \<Rightarrow> (Inr (sort_by_score results), s1))"

definition add_cache_result :: "search_result list \<Rightarrow> search_result \<Rightarrow> search_result list" where
  \<comment> \<open>The \<open>forEach\<close> callback of the merge.\<close>
  "add_cache_result allResults cacheResult =
     (if list_ex (\<lambda>r. res_url r = res_url cacheResult) allResults then allResults
      else allResults @ [cacheResult])"

definition merge_results :: "search_result list \<Rightarrow> search_result list \<Rightarrow> search_result list" where
  "merge_results googleResults cacheResults =
     take 5 (sort_by_score (foldl add_cache_result googleResults cacheResults))"

definition searchWorklineArticles_google ::
  "env \<Rightarrow> string \<Rightarrow> state \<Rightarrow> (regex_error + search_result list) \<times> state" where
  \<comment> \<open>\<open>searchWorklineArticles\<close> of the app with Google search.\<close>
  "searchWorklineArticles_google e query s =
     (case searchWithGoogle e query s of
        (googleResults, s1) \<Rightarrow>
          (case searchCachedArticles e query s1 of
             (Inl err, s2) \<Rightarrow> (Inl err, s2)
           | (Inr cacheResults, s2) \<Rightarrow> (Inr (merge_results googleResults cacheResults), s2)))"

section \<open>The relevance formula\<close>

text \<open>
  The score as a formula, to compare the scoring loop with. A term is a substring of a
  text when the text is some prefix, the term, and some suffix (\<open>sublist\<close>). The
  occurrences of a term in a text are counted from left to right without overlap. The
  text searched is \<open>searchableText\<close>: title, summary and body, each separated from the
  next by one space, in lower case.
\<close>

definition plain_term :: "string \<Rightarrow> bool" where
  \<comment> \<open>No character of the term is a syntax character of regular expressions.\<close>
  "plain_term t = list_all (\<lambda>c. c \<notin> set syntax_chars) t"

fun occurrences :: "string \<Rightarrow> string \<Rightarrow> nat" where
  "occurrences t [] = 0"
| "occurrences t (x # xs) =
     (if t \<noteq> [] \<and> prefix t (x # xs) then Suc (occurrences t (drop (length t - 1) xs))
      else occurrences t xs)"

definition term_relevance :: "article \<Rightarrow> string \<Rightarrow> nat" where
  "term_relevance a t =
     (if sublist t (toLowerCase (title a)) then 5 else 0) +
     (if sublist t (toLowerCase (summary a)) then 3 else 0) +
     (if list_ex (sublist t) (topics a) then 2 else 0) +
     min (occurrences t (searchableText a)) 3"

definition relevance :: "string list \<Rightarrow> article \<Rightarrow> nat" where
  "relevance ts a = sum_list (map (term_relevance a) ts)"

text \<open>
  The terms as the specification words them: the lower-cased query split at white
  space, without the terms of length at most 2.
\<close>

fun split_when :: "(char \<Rightarrow> bool) \<Rightarrow> string \<Rightarrow> string list" where
  "split_when sep [] = [[]]"
| "split_when sep (c # cs) =
     (if sep c then [] # split_when sep cs
      else (case split_when sep cs of [] \<Rightarrow> [[c]] | w # ws \<Rightarrow> (c # w) # ws))"

definition spec_terms :: "string \<Rightarrow> string list" where
  "spec_terms query = filter (\<lambda>t. length t > 2) (split_when isWhiteSpace (toLowerCase query))"

definition spec_score :: "string \<Rightarrow> article \<Rightarrow> nat" where
  "spec_score query a = relevance (spec_terms query) a"

section \<open>Properties of the cache\<close>

definition cache_keys :: "state \<Rightarrow> string set" where
  \<comment> \<open>The URLs that have a record in the cache.\<close>
  "cache_keys s = dom (cache_get (articleCache s))"

definition cache_inv :: "cache \<Rightarrow> bool" where
  \<comment> \<open>Every record is stored under its own URL and is no placeholder.\<close>
  "cache_inv c = list_all (\<lambda>(k, a). url a = k \<and> title a \<noteq> sentinel_title) c"

section \<open>Properties of the results\<close>

definition result_urls :: "regex_error + search_result list \<Rightarrow> regex_error + string list" where
  \<comment> \<open>The URLs of a returned list, in order.\<close>
  "result_urls r = map_sum id (map res_url) r"

text \<open>
  The order of the merged list, as a formula. The merge keeps the cache results whose
  URL no earlier entry has (\<open>unseen\<close>); a Google result has score 10, so the stable
  sort puts the Google results, in their own order, after the kept cache results that
  score more than 10 (\<open>outscoring\<close>) and before the others.
\<close>

fun unseen :: "string list \<Rightarrow> search_result list \<Rightarrow> search_result list" where
  "unseen seen [] = []"
| "unseen seen (r # rs) =
     (if res_url r \<in> set seen then unseen seen rs
      else r # unseen (seen @ [res_url r]) rs)"

definition outscoring :: "search_result list \<Rightarrow> search_result list \<Rightarrow> search_result list" where
  "outscoring G L = [r \<leftarrow> unseen (map res_url G) L. res_score r > 10]"

definition ranking :: "search_result list \<Rightarrow> search_result list \<Rightarrow> search_result list" where
  "ranking G L =
     sort_by_score (outscoring G L) @ G @
     sort_by_score [r \<leftarrow> unseen (map res_url G) L. \<not> res_score r > 10]"


section \<open>Two calls in the same world\<close>


section \<open>Example data\<close>

text \<open>
  The terms of the examples are all patterns of the modelled kinds, so the runtime
  parameter of the example environments is never consulted.
\<close>

definition blank_page :: document where
  "blank_page = (\<lambda>selector. [])"

definition offline_env :: env where
  "offline_env =
     \<lparr>http_get = (\<lambda>u. Inl RequestFailed), google_configured = False,
      google_get = (\<lambda>q. Inl RequestFailed), date_now = 1000,
      date_iso = ''2024-01-01T00:00:00.000Z'', finish_time = (\<lambda>u. 0),
      regex_runtime = (\<lambda>p s. Inl SyntaxError)\<rparr>"

definition blank_env :: env where
  "blank_env = offline_env\<lparr>http_get := (\<lambda>u. Inr blank_page)\<rparr>"

definition sample_article :: article where
  "sample_article =
     \<lparr>url = ''/the-workline/hybrid'', title = ''Hybrid Work Guide'', summary = [],
      content = ''hybrid hybrid work'', topics = [], publishDate = None, scrapedAt = None\<rparr>"

definition sample_state :: state where
  "sample_state =
     \<lparr>articleCache = [(''/the-workline/hybrid'', sample_article)], lastCacheTime = Some 500\<rparr>"

definition tab_query :: string where
  \<comment> \<open>Two words separated by a tab.\<close>
  "tab_query = ''abc'' @ [CHR 0x09] @ ''def''"

definition abc_article :: article where
  "abc_article =
     \<lparr>url = ''/the-workline/abc'', title = ''ABC'', summary = [],
      content = [], topics = [], publishDate = None, scrapedAt = None\<rparr>"

definition dollar_article :: article where
  "dollar_article =
     \<lparr>url = ''/the-workline/abc'', title = [], summary = [],
      content = ''abc'', topics = [], publishDate = None, scrapedAt = None\<rparr>"

definition google_env :: "google_item list \<Rightarrow> env" where
  "google_env items =
     offline_env\<lparr>google_configured := True, google_get := (\<lambda>q. Inr (Some items))\<rparr>"

definition hit :: "string \<Rightarrow> google_item" where
  "hit u = \<lparr>link = u, item_title = ''Hit'', snippet = ''A hit''\<rparr>"

definition pair_article :: "string \<Rightarrow> article" where
  "pair_article u =
     \<lparr>url = u, title = ''abc def'', summary = [], content = [], topics = [],
      publishDate = None, scrapedAt = None\<rparr>"

definition crowded_state :: state where
  "crowded_state =
     \<lparr>articleCache =
        map (\<lambda>u. (u, pair_article u)) [''/w/0'', ''/w/1'', ''/w/2'', ''/w/3'', ''/w/4'', ''/w/5''],
      lastCacheTime = Some 500\<rparr>"

definition hybrid_hit :: search_result where
  "hybrid_hit = google_result (hit ''/the-workline/hybrid'') sample_article"




section \<open>Evaluation\<close>

declare refresh_batches.simps [simp del]

lemmas string_eval = toLowerCase_def toLowerCase_char_def char_of_def bit_Suc_0_iff
  trim_def isWhiteSpace_def substring0_def

lemmas score_eval = article_score_def queryTerms_def score_term_def searchableText_def
  RegExp_match_count_def operator_chars_def unterminated_group_def backslash_def atom_of_def
  Let_def

lemmas search_eval = searchWorklineArticles_cacheOnly_def searchWorklineArticles_google_def
  searchWithGoogle_def completion_order_def searchCachedArticles_def merge_results_def
  add_cache_result_def
  stale_def CACHE_DURATION_def cache_result_def sort_by_score_def

lemma sample_score: "article_score rx ''Hybrid'' sample_article = Inr 8"
  by (simp add: sample_article_def score_eval string_eval)

lemma sample_cache_inv: "cache_inv (articleCache sample_state)"
  by (simp add: sample_state_def sample_article_def cache_inv_def sentinel_title_def)

section \<open>The cache only grows\<close>

lemma cache_get_set: "cache_get (cache_set k v c) = (cache_get c)(k \<mapsto> v)"
  unfolding cache_get_def
proof (induction c)
  case Nil
  show ?case by simp
next
  case (Cons p c)
  obtain k' v' where p: "p = (k', v')" by (cases p)
  show ?case
  proof (cases "k' = k")
    case True
    then show ?thesis by (simp add: p fun_eq_iff)
  next
    case False
    then show ?thesis by (auto simp: p Cons.IH fun_eq_iff)
  qed
qed

lemma dom_cache_set: "dom (cache_get (cache_set k v c)) = insert k (dom (cache_get c))"
  by (simp add: cache_get_set)

lemma dom_store_article: "dom (cache_get c) \<subseteq> dom (cache_get (store_article c a))"
  by (auto simp: store_article_def dom_cache_set)

lemma dom_foldl_store_article:
  "dom (cache_get c) \<subseteq> dom (cache_get (foldl store_article c as))"
proof (induction as arbitrary: c)
  case Nil
  show ?case by simp
next
  case (Cons a as)
  have "dom (cache_get c) \<subseteq> dom (cache_get (store_article c a))"
    by (rule dom_store_article)
  also have "\<dots> \<subseteq> dom (cache_get (foldl store_article (store_article c a) as))"
    by (rule Cons.IH)
  finally show ?case by simp
qed

lemma dom_refresh_batches:
  "dom (cache_get c) \<subseteq> dom (cache_get (refresh_batches e urls i c))"
proof (induction e urls i c rule: refresh_batches.induct)
  case (1 e urls i c)
  show ?case
  proof (cases "i < min (length urls) 20")
    case True
    let ?c' = "foldl store_article c (map (scrapeArticle e) (take 2 (drop i urls)))"
    have "dom (cache_get c) \<subseteq> dom (cache_get ?c')"
      by (rule dom_foldl_store_article)
    also have "\<dots> \<subseteq> dom (cache_get (refresh_batches e urls (i + 2) ?c'))"
      using "1.IH" [OF True refl refl] .
    finally show ?thesis
      using True by (subst refresh_batches.simps) (simp add: Let_def)
  next
    case False
    then show ?thesis by (subst refresh_batches.simps) auto
  qed
qed

lemma keys_refresh: "cache_keys s \<subseteq> cache_keys (refreshArticleCache e s)"
proof (cases "http_get e index_url")
  case (Inl err)
  then show ?thesis by (simp add: refreshArticleCache_def)
next
  case (Inr doc)
  then show ?thesis
    using dom_refresh_batches [of "articleCache s" e "discover doc" 0]
    by (simp add: refreshArticleCache_def cache_keys_def)
qed


lemma dom_foldl_store_item:
  "dom (cache_get c) \<subseteq> dom (cache_get (foldl (store_item e c0) c items))"
proof (induction items arbitrary: c)
  case Nil
  show ?case by simp
next
  case (Cons item items)
  have "dom (cache_get c) \<subseteq> dom (cache_get (store_item e c0 c item))"
    by (auto simp: store_item_def Let_def dom_cache_set split: option.splits)
  also have "\<dots> \<subseteq> dom (cache_get (foldl (store_item e c0) (store_item e c0 c item) items))"
    by (rule Cons.IH)
  finally show ?case by simp
qed

lemma keys_searchWithGoogle: "cache_keys s \<subseteq> cache_keys (snd (searchWithGoogle e q s))"
  using dom_foldl_store_item [of "articleCache s" e "articleCache s"]
  by (simp add: searchWithGoogle_def cache_keys_def Let_def split: sum.splits option.splits)

lemma snd_searchCachedArticles:
  "snd (searchCachedArticles e q s) = (if stale e s then refreshArticleCache e s else s)"
  by (simp add: searchCachedArticles_def Let_def split: sum.splits)

lemma snd_searchWorklineArticles_google:
  "snd (searchWorklineArticles_google e q s) =
     snd (searchCachedArticles e q (snd (searchWithGoogle e q s)))"
  by (simp add: searchWorklineArticles_google_def split: prod.splits sum.splits)

lemma snd_searchWorklineArticles_cacheOnly:
  "snd (searchWorklineArticles_cacheOnly e q s) =
     (let s1 = (if stale e s then refreshArticleCache e s else s)
      in if length (articleCache s1) = 0 then refreshArticleCache e s1 else s1)"
  by (simp add: searchWorklineArticles_cacheOnly_def Let_def split: sum.splits)

text \<open>
  C7. A refresh never removes a cache entry: every URL that has a record before the call
  has one after it, whatever the index page lists now. The same holds for a search in
  either app, so the key set of the cache only grows.
\<close>

theorem cache_keys_grow:
  "cache_keys s \<subseteq> cache_keys (refreshArticleCache e s) \<and>
   cache_keys s \<subseteq> cache_keys (snd (searchWorklineArticles_cacheOnly e q s)) \<and>
   cache_keys s \<subseteq> cache_keys (snd (searchWorklineArticles_google e q s))"
proof (intro conjI)
  show "cache_keys s \<subseteq> cache_keys (refreshArticleCache e s)"
    by (rule keys_refresh)
  show "cache_keys s \<subseteq> cache_keys (snd (searchWorklineArticles_cacheOnly e q s))"
    unfolding snd_searchWorklineArticles_cacheOnly Let_def
    using keys_refresh [of s e] keys_refresh [of "refreshArticleCache e s" e]
    by auto
  have "cache_keys s \<subseteq> cache_keys (snd (searchWithGoogle e q s))"
    by (rule keys_searchWithGoogle)
  also have "\<dots> \<subseteq> cache_keys (snd (searchWorklineArticles_google e q s))"
    unfolding snd_searchWorklineArticles_google snd_searchCachedArticles
    using keys_refresh [of "snd (searchWithGoogle e q s)" e] by simp
  finally show "cache_keys s \<subseteq> cache_keys (snd (searchWorklineArticles_google e q s))" .
qed

section \<open>A refresh that cannot load the index page\<close>

text \<open>
  C2. If fetching or loading the index page fails, the refresh returns without an
  exception and the state is what it was: the same cache contents and the same
  \<open>lastCacheTime\<close>.
\<close>

theorem refresh_abort_keeps_state:
  "http_get e index_url = Inl err \<Longrightarrow> refreshArticleCache e s = s"
  by (simp add: refreshArticleCache_def)

theorem refresh_abort_keeps_state_witness:
  "refreshArticleCache offline_env sample_state = sample_state"
  using refresh_abort_keeps_state [of offline_env RequestFailed sample_state]
  by (simp add: offline_env_def)

section \<open>The cache invariant\<close>

lemma length_sentinel_title: "length sentinel_title = 7"
  by (simp add: sentinel_title_def)

lemma url_scrapeArticle: "url (scrapeArticle e u) = u"
  by (simp add: scrapeArticle_def placeholder_def Let_def split: sum.splits)

lemma cache_inv_set:
  "cache_inv c \<Longrightarrow> url v = k \<Longrightarrow> title v \<noteq> sentinel_title \<Longrightarrow> cache_inv (cache_set k v c)"
  by (induction c) (auto simp: cache_inv_def)

lemma cache_inv_store_scraped:
  "cache_inv c \<Longrightarrow> cache_inv (store_article c (scrapeArticle e u))"
  by (simp add: store_article_def cache_inv_set url_scrapeArticle)

lemma cache_inv_foldl_store:
  "cache_inv c \<Longrightarrow> cache_inv (foldl store_article c (map (scrapeArticle e) us))"
  by (induction us arbitrary: c) (simp_all add: cache_inv_store_scraped)

lemma cache_inv_refresh_batches:
  "cache_inv c \<Longrightarrow> cache_inv (refresh_batches e urls i c)"
proof (induction e urls i c rule: refresh_batches.induct)
  case (1 e urls i c)
  show ?case
  proof (cases "i < min (length urls) 20")
    case True
    let ?c' = "foldl store_article c (map (scrapeArticle e) (take 2 (drop i urls)))"
    have "cache_inv ?c'"
      using "1.prems" by (rule cache_inv_foldl_store)
    then have "cache_inv (refresh_batches e urls (i + 2) ?c')"
      using "1.IH" [OF True refl refl] by simp
    then show ?thesis
      using True by (subst refresh_batches.simps) (simp add: Let_def)
  next
    case False
    then show ?thesis using "1.prems" by (subst refresh_batches.simps) auto
  qed
qed

lemma cache_inv_refresh:
  "cache_inv (articleCache s) \<Longrightarrow> cache_inv (articleCache (refreshArticleCache e s))"
  by (simp add: refreshArticleCache_def cache_inv_refresh_batches split: sum.splits)

lemma cache_inv_store_item:
  "cache_inv c \<Longrightarrow> cache_inv (store_item e c0 c item)"
  by (simp add: store_item_def Let_def cache_inv_set url_scrapeArticle split: option.splits)

lemma cache_inv_foldl_store_item:
  "cache_inv c \<Longrightarrow> cache_inv (foldl (store_item e c0) c items)"
  by (induction items arbitrary: c) (simp_all add: cache_inv_store_item)

lemma cache_inv_searchWithGoogle:
  "cache_inv (articleCache s) \<Longrightarrow> cache_inv (articleCache (snd (searchWithGoogle e q s)))"
  by (simp add: searchWithGoogle_def Let_def cache_inv_foldl_store_item
      split: sum.splits option.splits)

text \<open>
  C10. Every operation keeps the cache well formed: after a refresh and after a search
  of either app (and after the Google step alone), every record of the cache is stored
  under its own URL and its title is not the placeholder title \<open>Article\<close>.
\<close>

theorem cache_inv_preserved:
  assumes "cache_inv (articleCache s)"
  shows "cache_inv (articleCache (refreshArticleCache e s)) \<and>
         cache_inv (articleCache (snd (searchWorklineArticles_cacheOnly e q s))) \<and>
         cache_inv (articleCache (snd (searchWithGoogle e q s))) \<and>
         cache_inv (articleCache (snd (searchWorklineArticles_google e q s)))"
proof (intro conjI)
  show "cache_inv (articleCache (refreshArticleCache e s))"
    using assms by (rule cache_inv_refresh)
  show "cache_inv (articleCache (snd (searchWorklineArticles_cacheOnly e q s)))"
    unfolding snd_searchWorklineArticles_cacheOnly Let_def
    using assms by (auto intro: cache_inv_refresh)
  show g: "cache_inv (articleCache (snd (searchWithGoogle e q s)))"
    using assms by (rule cache_inv_searchWithGoogle)
  show "cache_inv (articleCache (snd (searchWorklineArticles_google e q s)))"
    unfolding snd_searchWorklineArticles_google snd_searchCachedArticles
    using g by (simp add: cache_inv_refresh)
qed

theorem cache_inv_preserved_witness:
  "cache_inv (articleCache sample_state) \<and>
   cache_inv (articleCache (refreshArticleCache blank_env sample_state)) \<and>
   cache_inv (articleCache (snd (searchWorklineArticles_cacheOnly blank_env ''Hybrid'' sample_state))) \<and>
   cache_inv (articleCache (snd (searchWithGoogle blank_env ''Hybrid'' sample_state))) \<and>
   cache_inv (articleCache (snd (searchWorklineArticles_google blank_env ''Hybrid'' sample_state)))"
  using cache_inv_preserved [OF sample_cache_inv, of blank_env "''Hybrid''"] sample_cache_inv
  by simp

section \<open>At most five results\<close>

lemma length_sort_by_score: "length (sort_by_score rs) = length rs"
  by (simp add: sort_by_score_def)

text \<open>
  C9. Whatever the query and the cache, a list that the search of either app returns
  has at most five entries.
\<close>

theorem search_at_most_five:
  "(fst (searchWorklineArticles_cacheOnly e q s) = Inr rs \<longrightarrow> length rs \<le> 5) \<and>
   (fst (searchWorklineArticles_google e q s) = Inr rs \<longrightarrow> length rs \<le> 5)"
  by (auto simp: searchWorklineArticles_cacheOnly_def searchWorklineArticles_google_def
      merge_results_def Let_def split: sum.splits prod.splits)

lemma sample_search_cacheOnly:
  "fst (searchWorklineArticles_cacheOnly offline_env ''Hybrid'' sample_state) =
     Inr [cache_result None sample_article 8]"
  by (simp add: search_eval sample_state_def offline_env_def sample_score)

lemma sample_search_google:
  "fst (searchWorklineArticles_google offline_env ''Hybrid'' sample_state) =
     Inr [cache_result (Some Cache) sample_article 8]"
  by (simp add: search_eval sample_state_def offline_env_def sample_score)

theorem search_at_most_five_witness:
  "fst (searchWorklineArticles_cacheOnly offline_env ''Hybrid'' sample_state) =
     Inr [cache_result None sample_article 8] \<and>
   length [cache_result None sample_article 8] \<le> 5 \<and>
   fst (searchWorklineArticles_google offline_env ''Hybrid'' sample_state) =
     Inr [cache_result (Some Cache) sample_article 8] \<and>
   length [cache_result (Some Cache) sample_article 8] \<le> 5"
  using search_at_most_five [of offline_env "''Hybrid''" sample_state
      "[cache_result None sample_article 8]"]
    search_at_most_five [of offline_env "''Hybrid''" sample_state
      "[cache_result (Some Cache) sample_article 8]"]
    sample_search_cacheOnly sample_search_google
  by simp

section \<open>The title of a scraped article\<close>

text \<open>
  C8 as stated fails: on a page without a heading, a page title and a title-classed
  element the record's title is the empty string, not the placeholder title.
\<close>

theorem empty_title_counterexample:
  "extract_title blank_page = [] \<and>
   title (scrapeArticle blank_env ''/the-workline/x'') = [] \<and>
   title (scrapeArticle blank_env ''/the-workline/x'') \<noteq> sentinel_title"
  by (simp add: scrapeArticle_def blank_env_def offline_env_def blank_page_def Let_def
      extract_title_def or_string_def sel_text_def first_def string_eval sentinel_title_def)

text \<open>
  C8, amended. The title of the extracted record is at most 150 characters long. It is
  the placeholder title \<open>Article\<close> when the page cannot be fetched or loaded; on a loaded
  page it is the first 150 characters of what the fallback chain (heading, page title
  without the site suffixes, title-classed element) extracts, which is the empty string
  when all three are empty.
\<close>

theorem title_of_scrapeArticle:
  "length (title (scrapeArticle e u)) \<le> 150 \<and>
   title (scrapeArticle e u) =
     (case http_get e u of
        Inl err \<Rightarrow> sentinel_title
      | Inr doc \<Rightarrow> take 150 (extract_title doc))"
  by (simp add: scrapeArticle_def placeholder_def Let_def substring0_def length_sentinel_title
      split: sum.splits)

section \<open>Query terms as regular expressions\<close>

text \<open>
  C3. The scorer should return a number for every query and record, also for terms
  with regular-expression metacharacters. It does not: the term is handed to
  \<open>new RegExp\<close> as it is, and a term that opens a group makes the constructor throw.
  For the query \<open>(abc\<close> the scorer ends with a SyntaxError on every record, and so
  does a search of either app over a cache that holds a record.
\<close>

theorem scorer_throws_on_open_group:
  "article_score rx ''(abc'' a = Inl SyntaxError \<and>
   fst (searchWorklineArticles_cacheOnly offline_env ''(abc'' sample_state) = Inl SyntaxError \<and>
   fst (searchWorklineArticles_google offline_env ''(abc'' sample_state) = Inl SyntaxError"
proof -
  have thrown: "article_score rx ''(abc'' a = Inl SyntaxError" for rx a
    by (simp add: article_score_def queryTerms_def toLowerCase_def toLowerCase_char_def
        score_term_def RegExp_match_count_def operator_chars_def unterminated_group_def
        backslash_def Let_def)
  show ?thesis
    by (simp add: thrown search_eval sample_state_def offline_env_def)
qed

section \<open>The score of a query\<close>

lemma str_includes_sublist: "str_includes s t = sublist t s"
  by (induction s) (simp_all add: sublist_Cons_right)

lemma match_here_Lit:
  "match_here (map Lit t) b s = (if prefix t s then Some (length t) else None)"
proof (induction t arbitrary: b s)
  case Nil
  show ?case by simp
next
  case (Cons c cs)
  show ?case by (cases s) (simp_all add: Cons.IH)
qed

lemma count_matches_Lit: "t \<noteq> [] \<Longrightarrow> count_matches (map Lit t) b s = occurrences t s"
proof (induction t s arbitrary: b rule: occurrences.induct)
  case (1 t)
  then show ?case by (simp add: match_here_Lit)
next
  case (2 t x xs)
  show ?case
  proof (cases "prefix t (x # xs)")
    case True
    then show ?thesis
      using "2.prems" "2.IH"(1) [of False] by (simp add: match_here_Lit)
  next
    case False
    then show ?thesis
      using "2.prems" "2.IH"(2) [of False] by (simp add: match_here_Lit)
  qed
qed

lemma plain_term_atoms: "plain_term t \<Longrightarrow> map atom_of t = map Lit t"
  by (induction t) (auto simp: plain_term_def syntax_chars_def atom_of_def)

lemma plain_term_no_operator: "plain_term t \<Longrightarrow> list_all (\<lambda>c. c \<notin> set operator_chars) t"
  by (induction t) (auto simp: plain_term_def syntax_chars_def)

lemma RegExp_plain_term:
  "plain_term t \<Longrightarrow> t \<noteq> [] \<Longrightarrow> RegExp_match_count rx t s = Inr (occurrences t s)"
  by (simp add: RegExp_match_count_def plain_term_no_operator plain_term_atoms count_matches_Lit)

lemma score_term_plain:
  "plain_term t \<Longrightarrow> t \<noteq> [] \<Longrightarrow> score_term rx a n t = Inr (n + term_relevance a t)"
  by (simp add: score_term_def term_relevance_def RegExp_plain_term str_includes_sublist Let_def)

lemma score_terms_plain:
  "list_all plain_term ts \<Longrightarrow> list_all (\<lambda>t. t \<noteq> []) ts \<Longrightarrow>
   score_terms rx a ts n = Inr (n + relevance ts a)"
  by (induction ts arbitrary: n) (simp_all add: score_term_plain relevance_def)

lemma queryTerms_nonempty: "list_all (\<lambda>t. t \<noteq> []) (queryTerms q)"
  by (auto simp: queryTerms_def list_all_iff)

lemma article_score_plain:
  "list_all plain_term (queryTerms q) \<Longrightarrow> article_score rx q a = Inr (relevance (queryTerms q) a)"
  by (simp add: article_score_def score_terms_plain queryTerms_nonempty)

lemma score_entries_plain:
  "list_all plain_term (queryTerms q) \<Longrightarrow>
   score_entries rx q src c =
     Inr (map (\<lambda>(k, a). cache_result src a (relevance (queryTerms q) a))
            (filter (\<lambda>(k, a). relevance (queryTerms q) a > 0) c))"
  by (induction c) (auto simp: article_score_plain)

text \<open>
  C1 as stated fails: the query is split at single spaces, not at all white space. For
  the query \<open>abc<TAB>def\<close> and a record titled \<open>ABC\<close> the formula of the claim gives 6
  (the term \<open>abc\<close> is in the title and occurs once), the code scores the one term
  \<open>abc<TAB>def\<close>, gets 0 and leaves the record out.
\<close>

theorem whitespace_split_counterexample:
  "article_score (\<lambda>p s. Inl SyntaxError) tab_query abc_article = Inr 0 \<and>
   spec_score tab_query abc_article = 6 \<and>
   score_entries (\<lambda>p s. Inl SyntaxError) tab_query (Some Cache)
     [(''/the-workline/abc'', abc_article)] = Inr []"
proof -
  have code: "article_score (\<lambda>p s. Inl SyntaxError) tab_query abc_article = Inr 0"
    by (simp add: tab_query_def abc_article_def score_eval string_eval)
  have terms: "spec_terms tab_query = [''abc'', ''def'']"
    by (simp add: tab_query_def spec_terms_def string_eval)
  have "spec_score tab_query abc_article = 6"
    by (simp add: spec_score_def terms relevance_def term_relevance_def abc_article_def
        searchableText_def string_eval sublist_code(2,3))
  with code show ?thesis by simp
qed

text \<open>
  C1, amended. The query is lower-cased and split at single space characters; terms of
  length at most 2 are dropped. When no term holds a regular-expression syntax
  character, the score of a record is the sum over the terms of: 5 if the term is a
  substring of the lower-cased title, plus 3 if it is one of the lower-cased summary,
  plus 2 if some topic contains it, plus the number of its occurrences (left to right,
  without overlap) in the lower-cased text of title, summary and body joined by single
  spaces, capped at 3; and the local result list holds exactly the cached records
  whose score is not 0, each with its score, in cache order before sorting.
\<close>

theorem score_of_plain_terms:
  assumes "list_all plain_term (queryTerms q)"
  shows "article_score rx q a = Inr (relevance (queryTerms q) a) \<and>
         score_entries rx q src c =
           Inr (map (\<lambda>(k, a). cache_result src a (relevance (queryTerms q) a))
                  (filter (\<lambda>(k, a). relevance (queryTerms q) a > 0) c))"
  using assms by (simp add: article_score_plain score_entries_plain)

lemma hybrid_terms: "queryTerms ''Hybrid'' = [''hybrid'']"
  by (simp add: queryTerms_def string_eval)

theorem score_of_plain_terms_witness:
  "list_all plain_term (queryTerms ''Hybrid'') \<and>
   article_score (\<lambda>p s. Inl SyntaxError) ''Hybrid'' sample_article = Inr 8 \<and>
   relevance (queryTerms ''Hybrid'') sample_article = 8 \<and>
   score_entries (\<lambda>p s. Inl SyntaxError) ''Hybrid'' (Some Cache) (articleCache sample_state) =
     Inr [cache_result (Some Cache) sample_article 8]"
proof -
  have plain: "list_all plain_term (queryTerms ''Hybrid'')"
    by (simp add: hybrid_terms plain_term_def syntax_chars_def operator_chars_def backslash_def)
  have rel: "relevance (queryTerms ''Hybrid'') sample_article = 8"
    using score_of_plain_terms [OF plain, of "\<lambda>p s. Inl SyntaxError" sample_article]
      sample_score [of "\<lambda>p s. Inl SyntaxError"]
    by simp
  show ?thesis
    using score_of_plain_terms [OF plain, of "\<lambda>p s. Inl SyntaxError" sample_article
        "Some Cache" "articleCache sample_state"] plain rel
    by (simp add: sample_state_def)
qed

section \<open>More occurrences in the body\<close>

text \<open>
  For terms without syntax characters the score never falls when text is appended to
  the body.
\<close>

lemma occurrences_short: "length s < length t \<Longrightarrow> occurrences t s = 0"
proof (induction s)
  case Nil
  show ?case by simp
next
  case (Cons x xs)
  have "\<not> prefix t (x # xs)"
    using Cons.prems by (auto dest: prefix_length_le)
  then show ?case using Cons by simp
qed

lemma occurrences_append: "occurrences t s \<le> occurrences t (s @ u)"
proof (induction t s rule: occurrences.induct)
  case (1 t)
  show ?case by simp
next
  case (2 t x xs)
  show ?case
  proof (cases "t \<noteq> [] \<and> prefix t (x # xs)")
    case True
    then have len: "length t - 1 \<le> length xs"
      by (auto dest: prefix_length_le)
    have "prefix t ((x # xs) @ u)"
      using True prefix_prefix [of t "x # xs" u] by blast
    then show ?thesis
      using True "2.IH"(1) len by simp
  next
    case False
    show ?thesis
    proof (cases "t \<noteq> [] \<and> prefix t ((x # xs) @ u)")
      case True
      have "length (x # xs) < length t"
      proof (rule ccontr)
        assume "\<not> length (x # xs) < length t"
        then have "length t \<le> length (x # xs)" by simp
        then have "prefix t (x # xs)"
          using True by (metis prefix_length_prefix prefixI)
        then show False using False True by simp
      qed
      then have "occurrences t xs = 0"
        by (intro occurrences_short) simp
      then show ?thesis using False True by simp
    next
      case nostraddle: False
      then show ?thesis
        using False "2.IH"(2) by auto
    qed
  qed
qed

lemma toLowerCase_append: "toLowerCase (s @ u) = toLowerCase s @ toLowerCase u"
  by (simp add: toLowerCase_def)

lemma searchableText_append:
  "searchableText (a\<lparr>content := content a @ u\<rparr>) = searchableText a @ toLowerCase u"
  by (simp add: searchableText_def toLowerCase_def)

lemma term_relevance_append:
  "term_relevance a t \<le> term_relevance (a\<lparr>content := content a @ u\<rparr>) t"
  using occurrences_append [of t "searchableText a" "toLowerCase u"]
  by (simp add: term_relevance_def searchableText_append min_le_iff_disj)

lemma relevance_append:
  "relevance ts a \<le> relevance ts (a\<lparr>content := content a @ u\<rparr>)"
  unfolding relevance_def
  by (induction ts) (simp_all add: add_mono term_relevance_append)

lemma plain_terms_monotone:
  assumes "list_all plain_term (queryTerms q)"
  shows "\<exists>m n. article_score rx q a = Inr m \<and>
           article_score rx q (a\<lparr>content := content a @ u\<rparr>) = Inr n \<and> m \<le> n"
  using assms relevance_append [of "queryTerms q" a u]
  by (simp add: article_score_plain)

text \<open>
  C4. Appending an occurrence of a query term to the body should never lower the score.
  With the term read as a regular expression it can: for the term \<open>abc$\<close> and the body
  \<open>abc\<close> the score is 1 (the pattern matches at the end of the text); once \<open>abc$\<close>
  is appended to the body the text no longer ends in \<open>abc\<close> and the score is 0.
\<close>

theorem end_anchor_term_score_drops:
  "article_score rx ''abc$'' dollar_article = Inr 1 \<and>
   article_score rx ''abc$'' (dollar_article\<lparr>content := content dollar_article @ ''abc$''\<rparr>) = Inr 0"
  by (simp add: dollar_article_def score_eval string_eval)


section \<open>Merging the Google results and the cache results\<close>

lemma set_foldl_add_cache_result:
  "set (foldl add_cache_result G L) \<subseteq> set G \<union> {r \<in> set L. res_url r \<notin> res_url ` set G}"
proof (induction L arbitrary: G)
  case Nil
  show ?case by simp
next
  case (Cons r L)
  have "set (foldl add_cache_result (add_cache_result G r) L)
        \<subseteq> set (add_cache_result G r) \<union>
          {x \<in> set L. res_url x \<notin> res_url ` set (add_cache_result G r)}"
    by (rule Cons.IH)
  also have "\<dots> \<subseteq> set G \<union> {x \<in> set (r # L). res_url x \<notin> res_url ` set G}"
    by (auto simp: add_cache_result_def list_ex_iff split: if_splits)
  finally show ?case by simp
qed

lemma distinct_add_cache_result:
  "distinct (map res_url G) \<Longrightarrow> distinct (map res_url (add_cache_result G r))"
  by (auto simp: add_cache_result_def list_ex_iff)

lemma distinct_foldl_add_cache_result:
  "distinct (map res_url G) \<Longrightarrow> distinct (map res_url (foldl add_cache_result G L))"
  by (induction L arbitrary: G) (simp_all add: distinct_add_cache_result)

lemma distinct_map_insort_key:
  "distinct (map g (insort_key f x xs)) = (g x \<notin> g ` set xs \<and> distinct (map g xs))"
  by (induction xs) (auto simp: set_insort_key)

lemma distinct_map_sort_key: "distinct (map g (sort_key f xs)) = distinct (map g xs)"
  by (induction xs) (simp_all add: distinct_map_insort_key)

lemma distinct_map_take: "distinct (map g xs) \<Longrightarrow> distinct (map g (take n xs))"
  by (simp add: take_map [symmetric] distinct_take)

lemma set_merge_results:
  "set (merge_results G L) \<subseteq> set G \<union> {r \<in> set L. res_url r \<notin> res_url ` set G}"
proof -
  have "set (merge_results G L) \<subseteq> set (foldl add_cache_result G L)"
    by (auto simp: merge_results_def sort_by_score_def dest: in_set_takeD)
  also note set_foldl_add_cache_result
  finally show ?thesis .
qed

lemma distinct_merge_results:
  "distinct (map res_url G) \<Longrightarrow> distinct (map res_url (merge_results G L))"
  by (simp add: merge_results_def sort_by_score_def distinct_map_take distinct_map_sort_key
      distinct_foldl_add_cache_result)

lemma source_score_entries:
  "score_entries rx q src c = Inr L \<Longrightarrow> r \<in> set L \<Longrightarrow> res_source r = src"
proof (induction c arbitrary: L)
  case Nil
  then show ?case by simp
next
  case (Cons p c)
  obtain k a where p: "p = (k, a)" by (cases p)
  from Cons.prems(1) obtain n L' where
    n: "article_score rx q a = Inr n" and L': "score_entries rx q src c = Inr L'" and
    L: "L = (if n > 0 then cache_result src a n # L' else L')"
    by (auto simp: p split: sum.splits)
  show ?case
    using Cons.IH [OF L'] Cons.prems(2) L
    by (auto simp: cache_result_def split: if_splits)
qed

lemma source_searchCachedArticles:
  "fst (searchCachedArticles e q s) = Inr L \<Longrightarrow> r \<in> set L \<Longrightarrow> res_source r = Some Cache"
  by (auto simp: searchCachedArticles_def Let_def sort_by_score_def split: sum.splits
      dest: source_score_entries)

lemma source_searchWithGoogle:
  "r \<in> set (fst (searchWithGoogle e q s)) \<Longrightarrow> res_source r = Some Google"
  by (auto simp: searchWithGoogle_def Let_def google_result_def split: if_splits sum.splits option.splits)

lemma foldl_add_cache_result_unseen:
  "foldl add_cache_result G L = G @ unseen (map res_url G) L"
proof (induction L arbitrary: G)
  case Nil
  show ?case by simp
next
  case (Cons r L)
  show ?case
  proof (cases "res_url r \<in> res_url ` set G")
    case True
    then have "add_cache_result G r = G"
      by (auto simp: add_cache_result_def list_ex_iff)
    then show ?thesis using True by (simp add: Cons.IH)
  next
    case False
    then have "\<not> list_ex (\<lambda>x. res_url x = res_url r) G"
      unfolding list_ex_iff by (metis image_eqI)
    then have "add_cache_result G r = G @ [r]"
      by (simp add: add_cache_result_def)
    then show ?thesis using False by (simp add: Cons.IH)
  qed
qed

lemma insort_key_front:
  "\<forall>b \<in> set B. f x \<le> f b \<Longrightarrow> insort_key f x B = x # B"
  by (cases B) simp_all

lemma insort_key_append_left:
  "\<forall>b \<in> set B. f x \<le> f b \<Longrightarrow> insort_key f x (A @ B) = insort_key f x A @ B"
  by (induction A) (simp_all add: insort_key_front)

lemma insort_key_append_right:
  "\<forall>a \<in> set A. f a < f x \<Longrightarrow> insort_key f x (A @ B) = A @ insort_key f x B"
  by (induction A) auto

lemma sort_key_partition:
  fixes f :: "'a \<Rightarrow> 'k::linorder"
  shows "sort_key f L = sort_key f [x \<leftarrow> L. f x < k] @ sort_key f [x \<leftarrow> L. \<not> f x < k]"
proof (induction L)
  case Nil
  show ?case by simp
next
  case (Cons x L)
  show ?case
  proof (cases "f x < k")
    case True
    then have "\<forall>b \<in> set (sort_key f [y \<leftarrow> L. \<not> f y < k]). f x \<le> f b"
      by auto
    then show ?thesis
      using True by (simp add: Cons.IH insort_key_append_left)
  next
    case False
    then have "\<forall>a \<in> set (sort_key f [y \<leftarrow> L. f y < k]). f a < f x"
      by auto
    then show ?thesis
      using False by (simp add: Cons.IH insort_key_append_right)
  qed
qed

lemma sort_key_equal_prefix:
  fixes f :: "'a \<Rightarrow> 'k::linorder"
  assumes "\<forall>g \<in> set G. f g = k"
  shows "sort_key f (G @ L) =
         sort_key f [x \<leftarrow> L. f x < k] @ G @ sort_key f [x \<leftarrow> L. \<not> f x < k]"
  using assms
proof (induction G)
  case Nil
  show ?case using sort_key_partition [of f L k] by simp
next
  case (Cons g G)
  let ?A = "sort_key f [x \<leftarrow> L. f x < k]"
  let ?B = "sort_key f [x \<leftarrow> L. \<not> f x < k]"
  have g: "f g = k" and G: "\<forall>x \<in> set G. f x = k"
    using Cons.prems by simp_all
  have "sort_key f ((g # G) @ L) = insort_key f g (?A @ G @ ?B)"
    using Cons.IH [OF G] by simp
  also have "\<dots> = ?A @ insort_key f g (G @ ?B)"
    by (rule insort_key_append_right) (simp add: g)
  also have "insort_key f g (G @ ?B) = g # G @ ?B"
    by (rule insort_key_front) (auto simp: g G)
  finally show ?case by simp
qed

lemma merge_results_ranking:
  assumes "\<forall>g \<in> set G. res_score g = 10"
  shows "merge_results G L = take 5 (ranking G L)"
proof -
  let ?f = "\<lambda>r. - int (res_score r)"
  have "\<forall>g \<in> set G. ?f g = - 10" using assms by simp
  from sort_key_equal_prefix [OF this, of "unseen (map res_url G) L"]
  have "sort_by_score (G @ unseen (map res_url G) L) = ranking G L"
    by (simp add: sort_by_score_def ranking_def outscoring_def)
  then show ?thesis
    by (simp add: merge_results_def foldl_add_cache_result_unseen)
qed

lemma score_searchWithGoogle:
  "r \<in> set (fst (searchWithGoogle e q s)) \<Longrightarrow> res_score r = 10"
  by (auto simp: searchWithGoogle_def Let_def google_result_def
      split: if_splits sum.splits option.splits)

lemma once_in_distinct:
  "distinct (map f xs) \<Longrightarrow> x \<in> set xs \<Longrightarrow> length [y \<leftarrow> xs. f y = f x] = 1"
proof (induction xs)
  case Nil
  then show ?case by simp
next
  case (Cons a xs)
  show ?case
  proof (cases "f a = f x")
    case True
    have "f a \<notin> f ` set xs"
      using Cons.prems(1) by simp
    then have "[y \<leftarrow> xs. f y = f x] = []"
      unfolding filter_empty_conv using True by (metis image_eqI)
    then show ?thesis using True by simp
  next
    case False
    then show ?thesis using Cons by auto
  qed
qed

lemma searchWorklineArticles_google_local:
  assumes "fst (searchCachedArticles e q (snd (searchWithGoogle e q s))) = Inr L"
  shows "fst (searchWorklineArticles_google e q s) =
         Inr (merge_results (fst (searchWithGoogle e q s)) L)"
  using assms
  by (auto simp: searchWorklineArticles_google_def split: prod.splits sum.splits)

lemma length_searchWithGoogle: "length (fst (searchWithGoogle e q s)) \<le> 5"
  by (simp add: searchWithGoogle_def Let_def split: sum.splits option.splits)

text \<open>
  C5, amended. The merge keeps the cache results whose URL no Google result and no
  earlier cache result has. When the local search returns its list, the merged output
  is the first five entries of: the kept cache results that score more than 10, by
  descending score; then all Google results in Google's order (at most five, each with
  score 10, not deduplicated among themselves); then the other kept cache results, by
  descending score. So every entry is a Google result or a cache result whose URL no
  Google result has: a URL of both lists is only ever represented by Google entries.
  When the Google results have pairwise different URLs, each URL appears at most once
  in the output. When the kept cache results scoring more than 10 and the Google
  results are at most five together, every Google result is in the output; with
  pairwise different Google URLs each of their URLs, also one that the cache results
  share, then has exactly one entry, the Google one.
\<close>

theorem merged_urls:
  fixes e q s L
  defines "G \<equiv> fst (searchWithGoogle e q s)"
  defines "rs \<equiv> take 5 (ranking G L)"
  assumes "fst (searchCachedArticles e q (snd (searchWithGoogle e q s))) = Inr L"
  shows "fst (searchWorklineArticles_google e q s) = Inr rs \<and>
         length G \<le> 5 \<and>
         list_all (\<lambda>r. r \<in> set G \<and> res_source r = Some Google \<or>
                       res_source r = Some Cache \<and> res_url r \<notin> res_url ` set G) rs \<and>
         (distinct (map res_url G) \<longrightarrow> distinct (map res_url rs)) \<and>
         (length (outscoring G L) + length G \<le> 5 \<longrightarrow> set G \<subseteq> set rs) \<and>
         (distinct (map res_url G) \<and> length (outscoring G L) + length G \<le> 5 \<longrightarrow>
            list_all (\<lambda>g. length [r \<leftarrow> rs. res_url r = res_url g] = 1) G)"
proof -
  have ten: "\<forall>g \<in> set G. res_score g = 10"
    unfolding G_def by (auto dest: score_searchWithGoogle)
  have rs: "rs = merge_results G L"
    unfolding rs_def by (rule merge_results_ranking [OF ten, symmetric])
  have 1: "fst (searchWorklineArticles_google e q s) = Inr rs"
    unfolding rs G_def by (rule searchWorklineArticles_google_local [OF assms(3)])
  have 2: "list_all (\<lambda>r. r \<in> set G \<and> res_source r = Some Google \<or>
                       res_source r = Some Cache \<and> res_url r \<notin> res_url ` set G) rs"
    unfolding list_all_iff
  proof
    fix r assume "r \<in> set rs"
    then have "r \<in> set G \<or> r \<in> set L \<and> res_url r \<notin> res_url ` set G"
      using set_merge_results [of G L] rs by auto
    then show "r \<in> set G \<and> res_source r = Some Google \<or>
               res_source r = Some Cache \<and> res_url r \<notin> res_url ` set G"
      using source_searchWithGoogle [of r e q s] source_searchCachedArticles [OF assms(3), of r]
      unfolding G_def by blast
  qed
  have 3: "distinct (map res_url G) \<longrightarrow> distinct (map res_url rs)"
    by (simp add: rs distinct_merge_results)
  have 4: "set G \<subseteq> set rs" if "length (outscoring G L) + length G \<le> 5"
    using that unfolding rs_def ranking_def by (auto simp: length_sort_by_score)
  have 5: "list_all (\<lambda>g. length [r \<leftarrow> rs. res_url r = res_url g] = 1) G"
    if "distinct (map res_url G)" and "length (outscoring G L) + length G \<le> 5"
    unfolding list_all_iff
  proof
    fix g assume "g \<in> set G"
    then have "g \<in> set rs" using 4 [OF that(2)] by auto
    moreover have "distinct (map res_url rs)" using 3 that(1) by simp
    ultimately show "length [r \<leftarrow> rs. res_url r = res_url g] = 1"
      by (rule once_in_distinct [rotated])
  qed
  have 6: "length G \<le> 5"
    unfolding G_def by (rule length_searchWithGoogle)
  from 1 2 3 4 5 6 show ?thesis by simp
qed


lemma pair_score: "article_score rx ''abc def'' (pair_article u) = Inr 12"
  by (simp add: pair_article_def score_eval string_eval)

lemma url_pair_article: "url (pair_article u) = u"
  by (simp add: pair_article_def)

lemma url_sample_article: "url sample_article = ''/the-workline/hybrid''"
  by (simp add: sample_article_def)

lemma hit_cached:
  "map res_url (fst (searchWithGoogle (google_env [hit ''/w/0'']) ''abc def'' crowded_state)) =
     [''/w/0'']"
  by (simp add: searchWithGoogle_def google_env_def offline_env_def hit_def google_result_def Let_def)


text \<open>
  C5 as stated fails twice. With six cached records that score 12 for \<open>abc def\<close> and
  one Google result (score 10) for the first of them, that URL is in both lists, and
  the final list, the five best, has no entry for it. And the Google results are not
  deduplicated among themselves: a link returned twice is listed twice.
\<close>

theorem merged_urls_counterexample:
  "map res_url (fst (searchWithGoogle (google_env [hit ''/w/0'']) ''abc def'' crowded_state)) =
     [''/w/0''] \<and>
   result_urls (fst (searchCachedArticles (google_env [hit ''/w/0'']) ''abc def'' crowded_state)) =
     Inr [''/w/0'', ''/w/1'', ''/w/2'', ''/w/3'', ''/w/4'', ''/w/5''] \<and>
   result_urls (fst (searchWorklineArticles_google (google_env [hit ''/w/0'']) ''abc def''
     crowded_state)) = Inr [''/w/1'', ''/w/2'', ''/w/3'', ''/w/4'', ''/w/5''] \<and>
   result_urls (fst (searchWorklineArticles_google (google_env [hit ''/w/9'', hit ''/w/9''])
     ''abc def'' initial_state)) = Inr [''/w/9'', ''/w/9'']"
proof -
  have twice: "result_urls (fst (searchWorklineArticles_google
      (google_env [hit ''/w/9'', hit ''/w/9'']) ''abc def'' initial_state)) =
      Inr [''/w/9'', ''/w/9'']"
    by (simp add: result_urls_def search_eval google_env_def offline_env_def hit_def
        initial_state_def refreshArticleCache_def item_article_def store_item_def cache_get_def
        scrapeArticle_def placeholder_def google_result_def Let_def)
  have local: "result_urls (fst (searchCachedArticles (google_env [hit ''/w/0'']) ''abc def''
      crowded_state)) = Inr [''/w/0'', ''/w/1'', ''/w/2'', ''/w/3'', ''/w/4'', ''/w/5'']"
    by (simp add: result_urls_def search_eval google_env_def offline_env_def crowded_state_def
        pair_score url_pair_article)
  have merged: "result_urls (fst (searchWorklineArticles_google (google_env [hit ''/w/0''])
      ''abc def'' crowded_state)) = Inr [''/w/1'', ''/w/2'', ''/w/3'', ''/w/4'', ''/w/5'']"
    by (simp add: result_urls_def search_eval google_env_def offline_env_def crowded_state_def
        pair_score url_pair_article hit_def item_article_def store_item_def cache_get_def
        google_result_def Let_def)
  show ?thesis using hit_cached twice local merged by simp
qed

lemma hybrid_google:
  "fst (searchWithGoogle (google_env [hit ''/the-workline/hybrid'']) ''Hybrid'' sample_state) =
     [hybrid_hit]"
  by (simp add: hybrid_hit_def searchWithGoogle_def google_env_def offline_env_def
      sample_state_def hit_def item_article_def cache_get_def Let_def)

lemma hybrid_local:
  "fst (searchCachedArticles (google_env [hit ''/the-workline/hybrid'']) ''Hybrid''
     (snd (searchWithGoogle (google_env [hit ''/the-workline/hybrid'']) ''Hybrid'' sample_state))) =
   Inr [cache_result (Some Cache) sample_article 8]"
  by (simp add: search_eval google_env_def offline_env_def sample_state_def hit_def
      store_item_def cache_get_def Let_def sample_score)

lemma hybrid_ranking:
  "take 5 (ranking [hybrid_hit] [cache_result (Some Cache) sample_article 8]) = [hybrid_hit] \<and>
   outscoring [hybrid_hit] [cache_result (Some Cache) sample_article 8] = []"
  by (simp add: ranking_def outscoring_def sort_by_score_def hybrid_hit_def google_result_def
      cache_result_def hit_def url_sample_article)

theorem merged_urls_witness:
  "fst (searchCachedArticles (google_env [hit ''/the-workline/hybrid'']) ''Hybrid''
     (snd (searchWithGoogle (google_env [hit ''/the-workline/hybrid'']) ''Hybrid'' sample_state))) =
     Inr [cache_result (Some Cache) sample_article 8] \<and>
   fst (searchWithGoogle (google_env [hit ''/the-workline/hybrid'']) ''Hybrid'' sample_state) =
     [hybrid_hit] \<and>
   fst (searchWorklineArticles_google (google_env [hit ''/the-workline/hybrid'']) ''Hybrid''
     sample_state) = Inr [hybrid_hit] \<and>
   distinct (map res_url [hybrid_hit]) \<and>
   length (outscoring [hybrid_hit] [cache_result (Some Cache) sample_article 8]) +
     length [hybrid_hit] \<le> 5 \<and>
   length [r \<leftarrow> [hybrid_hit]. res_url r = res_url hybrid_hit] = 1 \<and>
   res_source hybrid_hit = Some Google"
  using merged_urls [OF hybrid_local] hybrid_local hybrid_google hybrid_ranking
  by simp

section \<open>Searching twice\<close>






















end
